theory Spec2Isabelle
  imports Complex_Main "HOL-Library.Sublist"
begin

section \<open>AutoShutdown: the timer engine and the display-name resolver of App.tsx\<close>

text \<open>
  The development embeds the React component \<^verbatim>\<open>App\<close> of \<^verbatim>\<open>src/App.tsx\<close>: its state
  hooks, its two interval-driven countdowns, the asynchronous command invocations and
  the pure function \<^verbatim>\<open>getAppDisplayName\<close>.

  Modelling decisions.
  \<^item> A JavaScript string is the list of its UTF-16 code units (natural numbers).
  \<^item> A JavaScript number read from an input field is \<open>NaN\<close> or an exact rational;
    IEEE-754 rounding and the infinities are not modelled. The built-in
    \<^verbatim>\<open>parseFloat\<close> and \<^verbatim>\<open>String.prototype.toLowerCase\<close> are parameters of the
    functions that call them, so every theorem holds for any behaviour of the two.
  \<^item> The values of the \<^verbatim>\<open>useState\<close> hooks of one render form the record \<open>hooks\<close>.
    A function defined inside \<^verbatim>\<open>App\<close> is a closure over the render that created it,
    so an interval callback and a suspended \<^verbatim>\<open>async\<close> function carry the \<open>hooks\<close>
    of the render in which the timer was started.
  \<^item> The browser is the record \<open>world\<close>: the latest committed hooks, the two refs,
    the table of active intervals, the pending promises and the log of external
    effects. One event (a click, a due timer, a settled promise) is one \<open>step\<close>.
    A state updater passed to a setter runs once, at the step that calls the setter.
\<close>

subsection \<open>Strings\<close>

type_synonym jsstring = "nat list"

definition js :: "string \<Rightarrow> jsstring" where
  "js s = map of_char s"

text \<open>\<^verbatim>\<open>s.includes(sub)\<close>: some suffix of \<open>s\<close> starts with \<open>sub\<close>.\<close>

fun includes_js :: "jsstring \<Rightarrow> jsstring \<Rightarrow> bool" where
  "includes_js [] sub = (sub = [])"
| "includes_js (c # cs) sub = (prefix sub (c # cs) \<or> includes_js cs sub)"

text \<open>\<^verbatim>\<open>s.replace(pat, rep)\<close> with a string pattern: only the first occurrence.\<close>

fun replace_js :: "jsstring \<Rightarrow> jsstring \<Rightarrow> jsstring \<Rightarrow> jsstring" where
  "replace_js [] pat rep = (if pat = [] then rep else [])"
| "replace_js (c # cs) pat rep =
     (if prefix pat (c # cs) then rep @ drop (length pat) (c # cs)
      else c # replace_js cs pat rep)"

text \<open>\<^verbatim>\<open>s.split(sep)[0]\<close> for a non-empty separator: the part of \<open>s\<close> before the first
  occurrence of \<open>sep\<close>, all of \<open>s\<close> when there is none.\<close>

fun split_head :: "jsstring \<Rightarrow> jsstring \<Rightarrow> jsstring" where
  "split_head [] sep = []"
| "split_head (c # cs) sep = (if prefix sep (c # cs) then [] else c # split_head cs sep)"

text \<open>The code units \<^verbatim>\<open>trim()\<close> removes: ECMAScript WhiteSpace and LineTerminator.\<close>

definition isWhiteSpace :: "nat \<Rightarrow> bool" where
  "isWhiteSpace c \<longleftrightarrow>
     c \<in> {0x9, 0xA, 0xB, 0xC, 0xD, 0x20, 0xA0, 0x1680, 0x2028, 0x2029, 0x202F, 0x205F,
          0x3000, 0xFEFF} \<or> (0x2000 \<le> c \<and> c \<le> 0x200A)"

definition trim_js :: "jsstring \<Rightarrow> jsstring" where
  "trim_js s = rev (dropWhile isWhiteSpace (rev (dropWhile isWhiteSpace s)))"

text \<open>Lower-casing of the letters A to Z only: the instance of \<^verbatim>\<open>toLowerCase\<close> used
  where a concrete input is evaluated (all of those inputs are ASCII).\<close>

definition toLowerCase_ascii :: "jsstring \<Rightarrow> jsstring" where
  "toLowerCase_ascii s = map (\<lambda>c. if 0x41 \<le> c \<and> c \<le> 0x5A then c + 0x20 else c) s"

subsection \<open>The display-name resolver (App.tsx, lines 237 to 267)\<close>

record ProcessInfo =
  pid :: int
  name :: jsstring
  title :: jsstring
  icon :: "jsstring option"

text \<open>\<^verbatim>\<open>Object.entries(browsers)\<close> lists the keys in insertion order.\<close>

definition browsers :: "(jsstring \<times> jsstring) list" where
  "browsers =
     [(js ''chrome'', js ''Google Chrome''),
      (js ''msedge'', js ''Microsoft Edge''),
      (js ''firefox'', js ''Firefox''),
      (js ''opera'', js ''Opera''),
      (js ''brave'', js ''Brave'')]"

text \<open>The second separator holds an em dash (U+2014), the fourth a middle dot (U+00B7).\<close>

definition separators :: "jsstring list" where
  "separators = [js '' - '', [0x20, 0x2014, 0x20], js '' | '', [0x20, 0xB7, 0x20]]"

definition getAppDisplayName :: "(jsstring \<Rightarrow> jsstring) \<Rightarrow> ProcessInfo \<Rightarrow> jsstring" where
  "getAppDisplayName toLowerCase app =
     (let processName = toLowerCase (name app) in
      if title app = [] then replace_js (replace_js (name app) (js ''.exe'') []) (js ''.EXE'') []
      else
        (case find (\<lambda>(key, friendly). includes_js processName key) browsers of
           Some (key, friendly) \<Rightarrow> friendly
         | None \<Rightarrow>
            (case find (\<lambda>sep. includes_js (title app) sep) separators of
               Some sep \<Rightarrow> trim_js (split_head (title app) sep)
             | None \<Rightarrow> title app)))"

subsection \<open>Numbers, translations and the hooks of a render\<close>

datatype number = NaN | Num rat

text \<open>\<^verbatim>\<open>x || 0\<close> on a number: \<open>NaN\<close> and zero are falsy.\<close>

definition or_zero :: "number \<Rightarrow> rat" where
  "or_zero x = (case x of NaN \<Rightarrow> 0 | Num q \<Rightarrow> q)"

datatype Language = zh | en

datatype tkey = closed | cancelled | pleaseSelect | invalidTime

text \<open>The entries of the dictionary \<^verbatim>\<open>translations\<close> that the handlers read.\<close>

fun translations_of :: "Language \<Rightarrow> tkey \<Rightarrow> jsstring" where
  "translations_of zh closed = [0x2713, 0x20, 0x5DF2, 0x5173, 0x95ED]"
| "translations_of zh cancelled = [0x5DF2, 0x53D6, 0x6D88]"
| "translations_of zh pleaseSelect =
     [0x8BF7, 0x5148, 0x9009, 0x62E9, 0x4E00, 0x4E2A, 0x5E94, 0x7528, 0xFF01]"
| "translations_of zh invalidTime =
     [0x8BF7, 0x8F93, 0x5165, 0x6709, 0x6548, 0x7684, 0x65F6, 0x95F4, 0xFF01]"
| "translations_of en closed = 0x2713 # js '' Closed''"
| "translations_of en cancelled = js ''Cancelled''"
| "translations_of en pleaseSelect = js ''Please select an app first!''"
| "translations_of en invalidTime = js ''Please enter a valid time!''"

record hooks =
  apps :: "ProcessInfo list"
  selectedApp :: "ProcessInfo option"
  appMinutes :: jsstring
  appHours :: jsstring
  sysMinutes :: jsstring
  sysHours :: jsstring
  sysAction :: jsstring
  shutdownAfter :: bool
  appTimer :: int
  sysTimer :: int
  appStatus :: jsstring
  sysStatus :: jsstring
  loading :: bool
  isDark :: bool
  lang :: Language

definition t :: "hooks \<Rightarrow> tkey \<Rightarrow> jsstring" where
  "t r key = translations_of (lang r) key"

subsection \<open>The world: refs, intervals, promises, effects\<close>

datatype command =
  get_running_apps | kill_process int | system_shutdown | system_restart | system_sleep

datatype effect = Invoke command | Alert jsstring | ConsoleError jsstring

text \<open>An interval callback with the render it closes over; \<open>PollTick\<close> is the 30 second
  fallback poll, whose callback \<^verbatim>\<open>loadApps\<close> reads no hook.\<close>

datatype callback = AppTick hooks | SysTick hooks | PollTick

text \<open>An \<^verbatim>\<open>async\<close> function suspended at an \<^verbatim>\<open>await\<close>, with the render it closes over.\<close>

datatype continuation = AwaitGetApps | AwaitKill hooks | AwaitShutdown hooks | AwaitSysAction

datatype 'a settled = Resolved 'a | Rejected jsstring

record world =
  render :: hooks
  appIntervalRef :: "nat option"
  sysIntervalRef :: "nat option"
  timers :: "(nat \<times> callback) list"
  next_timer :: nat
  pending :: "(nat \<times> continuation) list"
  next_promise :: nat
  effects :: "effect list"

definition setInterval :: "callback \<Rightarrow> world \<Rightarrow> nat \<times> world" where
  "setInterval cb w =
     (next_timer w,
      w\<lparr>timers := timers w @ [(next_timer w, cb)], next_timer := Suc (next_timer w)\<rparr>)"

text \<open>\<^verbatim>\<open>clearInterval(h)\<close>; a \<^verbatim>\<open>null\<close> or unknown handle clears nothing.\<close>

definition clearInterval :: "nat option \<Rightarrow> world \<Rightarrow> world" where
  "clearInterval h w =
     (case h of None \<Rightarrow> w
      | Some i \<Rightarrow> w\<lparr>timers := filter (\<lambda>(j, cb). j \<noteq> i) (timers w)\<rparr>)"

text \<open>\<^verbatim>\<open>await invoke(c)\<close>: the call is logged and the caller waits on a fresh promise.\<close>

definition invoke :: "command \<Rightarrow> continuation \<Rightarrow> world \<Rightarrow> world" where
  "invoke c k w =
     w\<lparr>pending := pending w @ [(next_promise w, k)],
       next_promise := Suc (next_promise w),
       effects := effects w @ [Invoke c]\<rparr>"

definition alert :: "jsstring \<Rightarrow> world \<Rightarrow> world" where
  "alert msg w = w\<lparr>effects := effects w @ [Alert msg]\<rparr>"

definition console_error :: "jsstring \<Rightarrow> world \<Rightarrow> world" where
  "console_error e w = w\<lparr>effects := effects w @ [ConsoleError e]\<rparr>"

definition setApps :: "ProcessInfo list \<Rightarrow> world \<Rightarrow> world" where
  "setApps v w = w\<lparr>render := (render w)\<lparr>apps := v\<rparr>\<rparr>"

definition setSelectedApp :: "ProcessInfo option \<Rightarrow> world \<Rightarrow> world" where
  "setSelectedApp v w = w\<lparr>render := (render w)\<lparr>selectedApp := v\<rparr>\<rparr>"

definition setAppTimer :: "int \<Rightarrow> world \<Rightarrow> world" where
  "setAppTimer v w = w\<lparr>render := (render w)\<lparr>appTimer := v\<rparr>\<rparr>"

definition setSysTimer :: "int \<Rightarrow> world \<Rightarrow> world" where
  "setSysTimer v w = w\<lparr>render := (render w)\<lparr>sysTimer := v\<rparr>\<rparr>"

definition setAppStatus :: "jsstring \<Rightarrow> world \<Rightarrow> world" where
  "setAppStatus v w = w\<lparr>render := (render w)\<lparr>appStatus := v\<rparr>\<rparr>"

definition setSysStatus :: "jsstring \<Rightarrow> world \<Rightarrow> world" where
  "setSysStatus v w = w\<lparr>render := (render w)\<lparr>sysStatus := v\<rparr>\<rparr>"

definition setLoading :: "bool \<Rightarrow> world \<Rightarrow> world" where
  "setLoading v w = w\<lparr>render := (render w)\<lparr>loading := v\<rparr>\<rparr>"

subsection \<open>Polling (lines 115 to 142)\<close>

text \<open>\<^verbatim>\<open>loadApps\<close> up to its \<^verbatim>\<open>await\<close>, and the rest of it once the promise settles.\<close>

definition loadApps :: "world \<Rightarrow> world" where
  "loadApps w = invoke get_running_apps AwaitGetApps (setLoading True w)"

definition loadApps_settled :: "ProcessInfo list settled \<Rightarrow> world \<Rightarrow> world" where
  "loadApps_settled res w =
     setLoading False
       (case res of Resolved result \<Rightarrow> setApps result w | Rejected e \<Rightarrow> console_error e w)"

subsection \<open>The app slot (lines 144 to 188)\<close>

text \<open>\<^verbatim>\<open>executeAppShutdown\<close> of the render \<open>r\<close>, up to its first \<^verbatim>\<open>await\<close>.\<close>

definition executeAppShutdown :: "hooks \<Rightarrow> world \<Rightarrow> world" where
  "executeAppShutdown r w =
     (case selectedApp r of
        None \<Rightarrow> w
      | Some a \<Rightarrow> invoke (kill_process (pid a)) (AwaitKill r) w)"

text \<open>Its last two statements: \<^verbatim>\<open>loadApps(); setSelectedApp(null)\<close>.\<close>

definition executeAppShutdown_tail :: "world \<Rightarrow> world" where
  "executeAppShutdown_tail w = setSelectedApp None (loadApps w)"

text \<open>What a suspended function does when its promise settles. A rejection is thrown at
  the \<^verbatim>\<open>await\<close> and nothing catches it, so the rest of the function is skipped; nothing
  follows the \<^verbatim>\<open>await\<close> of \<^verbatim>\<open>executeSysAction\<close>.\<close>

fun resume :: "continuation \<Rightarrow> unit settled \<Rightarrow> world \<Rightarrow> world" where
  "resume (AwaitKill r) (Resolved u) w =
     (let w1 = setAppStatus (t r closed) w in
      if shutdownAfter r then invoke system_shutdown (AwaitShutdown r) w1
      else executeAppShutdown_tail w1)"
| "resume (AwaitShutdown r) (Resolved u) w = executeAppShutdown_tail w"
| "resume k res w = w"

definition startAppTimer :: "(jsstring \<Rightarrow> number) \<Rightarrow> world \<Rightarrow> world" where
  "startAppTimer parseFloat w =
     (let r = render w in
      case selectedApp r of
        None \<Rightarrow> alert (t r pleaseSelect) w
      | Some a \<Rightarrow>
         (let mins = or_zero (parseFloat (appMinutes r));
              hours = or_zero (parseFloat (appHours r));
              totalMinutes = hours * 60 + mins
          in if totalMinutes \<le> 0 then alert (t r invalidTime) w
             else
               (let (h, w') = setInterval (AppTick r)
                                (setAppStatus [] (setAppTimer \<lfloor>totalMinutes * 60\<rfloor> w))
                in w'\<lparr>appIntervalRef := Some h\<rparr>)))"

text \<open>The interval callback of \<^verbatim>\<open>startAppTimer\<close>: the updater given to \<^verbatim>\<open>setAppTimer\<close>.\<close>

definition appTick :: "hooks \<Rightarrow> world \<Rightarrow> world" where
  "appTick r w =
     (let prev = appTimer (render w) in
      if prev \<le> 1
      then setAppTimer 0 (executeAppShutdown r (clearInterval (appIntervalRef w) w))
      else setAppTimer (prev - 1) w)"

text \<open>\<^verbatim>\<open>if (appIntervalRef.current)\<close> is false for \<^verbatim>\<open>null\<close> and for the number 0.\<close>

definition cancelAppTimer :: "world \<Rightarrow> world" where
  "cancelAppTimer w =
     (let r = render w;
          w1 = (if appIntervalRef w \<noteq> None \<and> appIntervalRef w \<noteq> Some 0
                then clearInterval (appIntervalRef w) w else w)
      in setAppStatus (t r cancelled) (setAppTimer 0 w1))"

subsection \<open>The system slot (lines 190 to 224)\<close>

definition executeSysAction :: "hooks \<Rightarrow> world \<Rightarrow> world" where
  "executeSysAction r w =
     (if sysAction r = js ''shutdown'' then invoke system_shutdown AwaitSysAction w
      else if sysAction r = js ''restart'' then invoke system_restart AwaitSysAction w
      else if sysAction r = js ''sleep'' then invoke system_sleep AwaitSysAction w
      else w)"

definition startSysTimer :: "(jsstring \<Rightarrow> number) \<Rightarrow> world \<Rightarrow> world" where
  "startSysTimer parseFloat w =
     (let r = render w;
          mins = or_zero (parseFloat (sysMinutes r));
          hours = or_zero (parseFloat (sysHours r));
          totalMinutes = hours * 60 + mins
      in if totalMinutes \<le> 0 then alert (t r invalidTime) w
         else
           (let (h, w') = setInterval (SysTick r)
                            (setSysStatus [] (setSysTimer \<lfloor>totalMinutes * 60\<rfloor> w))
            in w'\<lparr>sysIntervalRef := Some h\<rparr>))"

definition sysTick :: "hooks \<Rightarrow> world \<Rightarrow> world" where
  "sysTick r w =
     (let prev = sysTimer (render w) in
      if prev \<le> 1
      then setSysTimer 0 (executeSysAction r (clearInterval (sysIntervalRef w) w))
      else setSysTimer (prev - 1) w)"

definition cancelSysTimer :: "world \<Rightarrow> world" where
  "cancelSysTimer w =
     (let r = render w;
          w1 = (if sysIntervalRef w \<noteq> None \<and> sysIntervalRef w \<noteq> Some 0
                then clearInterval (sysIntervalRef w) w else w)
      in setSysStatus (t r cancelled) (setSysTimer 0 w1))"

subsection \<open>Events\<close>

fun fire :: "callback \<Rightarrow> world \<Rightarrow> world" where
  "fire (AppTick r) w = appTick r w"
| "fire (SysTick r) w = sysTick r w"
| "fire PollTick w = loadApps w"

definition settle :: "nat \<Rightarrow> world \<Rightarrow> world" where
  "settle i w = w\<lparr>pending := filter (\<lambda>(j, k). j \<noteq> i) (pending w)\<rparr>"

datatype event =
    ClickApp ProcessInfo
  | ChangeAppHours jsstring
  | ChangeAppMinutes jsstring
  | ChangeSysHours jsstring
  | ChangeSysMinutes jsstring
  | ChangeSysAction jsstring
  | ChangeShutdownAfter bool
  | ClickTheme
  | ClickStartApp
  | ClickCancelApp
  | ClickStartSys
  | ClickCancelSys
  | WindowChanged
  | Tick nat
  | AppsSettled nat "ProcessInfo list settled"
  | CommandSettled nat "unit settled"

text \<open>
  One event of the page. The list shows a button for each element of \<open>apps\<close> (lines 296
  to 311); the start buttons are disabled as lines 376 and 452 say; a timer that is no
  longer in the table delivers nothing; a settlement is delivered to the function that
  waits on that promise.
\<close>

fun step :: "(jsstring \<Rightarrow> number) \<Rightarrow> event \<Rightarrow> world \<Rightarrow> world" where
  "step pf (ClickApp a) w =
     (if a \<in> set (apps (render w))
      then setSelectedApp
             (if map_option pid (selectedApp (render w)) = Some (pid a) then None else Some a) w
      else w)"
| "step pf (ChangeAppHours v) w = w\<lparr>render := (render w)\<lparr>appHours := v\<rparr>\<rparr>"
| "step pf (ChangeAppMinutes v) w = w\<lparr>render := (render w)\<lparr>appMinutes := v\<rparr>\<rparr>"
| "step pf (ChangeSysHours v) w = w\<lparr>render := (render w)\<lparr>sysHours := v\<rparr>\<rparr>"
| "step pf (ChangeSysMinutes v) w = w\<lparr>render := (render w)\<lparr>sysMinutes := v\<rparr>\<rparr>"
| "step pf (ChangeSysAction v) w = w\<lparr>render := (render w)\<lparr>sysAction := v\<rparr>\<rparr>"
| "step pf (ChangeShutdownAfter v) w = w\<lparr>render := (render w)\<lparr>shutdownAfter := v\<rparr>\<rparr>"
| "step pf ClickTheme w = w\<lparr>render := (render w)\<lparr>isDark := \<not> isDark (render w)\<rparr>\<rparr>"
| "step pf ClickStartApp w =
     (if appTimer (render w) > 0 \<or> selectedApp (render w) = None then w
      else startAppTimer pf w)"
| "step pf ClickCancelApp w = cancelAppTimer w"
| "step pf ClickStartSys w = (if sysTimer (render w) > 0 then w else startSysTimer pf w)"
| "step pf ClickCancelSys w = cancelSysTimer w"
| "step pf WindowChanged w = loadApps w"
| "step pf (Tick h) w = (case map_of (timers w) h of None \<Rightarrow> w | Some cb \<Rightarrow> fire cb w)"
| "step pf (AppsSettled i res) w =
     (case map_of (pending w) i of
        Some AwaitGetApps \<Rightarrow> loadApps_settled res (settle i w)
      | _ \<Rightarrow> w)"
| "step pf (CommandSettled i res) w =
     (case map_of (pending w) i of
        None \<Rightarrow> w
      | Some AwaitGetApps \<Rightarrow> w
      | Some k \<Rightarrow> resume k res (settle i w))"

fun run :: "(jsstring \<Rightarrow> number) \<Rightarrow> event list \<Rightarrow> world \<Rightarrow> world" where
  "run pf [] w = w"
| "run pf (e # es) w = run pf es (step pf e w)"

text \<open>The initial hooks (lines 77 to 91) and the page after its mount effects (lines 97
  to 142): the language is detected, the first poll is under way and the fallback poll
  holds the first timer handle.\<close>

definition initial :: hooks where
  "initial =
     \<lparr>apps = [], selectedApp = None, appMinutes = js ''30'', appHours = js ''0'',
      sysMinutes = js ''0'', sysHours = js ''1'', sysAction = js ''shutdown'',
      shutdownAfter = False, appTimer = 0, sysTimer = 0, appStatus = [], sysStatus = [],
      loading = True, isDark = False, lang = zh\<rparr>"

definition mount :: "Language \<Rightarrow> world" where
  "mount l =
     snd (setInterval PollTick
            (loadApps
               \<lparr>render = initial\<lparr>lang := l\<rparr>, appIntervalRef = None, sysIntervalRef = None,
                timers = [], next_timer = 1, pending = [], next_promise = 0, effects = []\<rparr>))"

subsection \<open>Predicates used in the statements\<close>

text \<open>Handles and promise identifiers are handed out in increasing order, and no timer
  handle is zero.\<close>

definition wf :: "world \<Rightarrow> bool" where
  "wf w \<longleftrightarrow>
     0 < next_timer w \<and> list_all (\<lambda>(i, cb). i < next_timer w) (timers w) \<and>
     list_all (\<lambda>(i, k). i < next_promise w) (pending w)"

fun is_AppTick :: "callback \<Rightarrow> bool" where
  "is_AppTick (AppTick r) = True"
| "is_AppTick cb = False"


text \<open>A click on a button of the application list.\<close>

fun is_ClickApp :: "event \<Rightarrow> bool" where
  "is_ClickApp (ClickApp b) = True"
| "is_ClickApp e = False"









text \<open>The command \<^verbatim>\<open>executeSysAction\<close> invokes for an action key; none for a key that is
  not one of the three options of the select element.\<close>

definition power_command :: "jsstring \<Rightarrow> command option" where
  "power_command key =
     (if key = js ''shutdown'' then Some system_shutdown
      else if key = js ''restart'' then Some system_restart
      else if key = js ''sleep'' then Some system_sleep
      else None)"

text \<open>The total of minutes and the seconds a start handler computes from the two
  fields of its slot.\<close>

definition app_total :: "(jsstring \<Rightarrow> number) \<Rightarrow> hooks \<Rightarrow> rat" where
  "app_total pf r = or_zero (pf (appHours r)) * 60 + or_zero (pf (appMinutes r))"

definition sys_total :: "(jsstring \<Rightarrow> number) \<Rightarrow> hooks \<Rightarrow> rat" where
  "sys_total pf r = or_zero (pf (sysHours r)) * 60 + or_zero (pf (sysMinutes r))"

definition app_seconds :: "(jsstring \<Rightarrow> number) \<Rightarrow> hooks \<Rightarrow> int" where
  "app_seconds pf r = \<lfloor>app_total pf r * 60\<rfloor>"

definition sys_seconds :: "(jsstring \<Rightarrow> number) \<Rightarrow> hooks \<Rightarrow> int" where
  "sys_seconds pf r = \<lfloor>sys_total pf r * 60\<rfloor>"

text \<open>Everything a slot owns is as before: hooks, refs, intervals, promises.\<close>

definition same_state :: "world \<Rightarrow> world \<Rightarrow> bool" where
  "same_state w w' \<longleftrightarrow>
     render w' = render w \<and> appIntervalRef w' = appIntervalRef w \<and>
     sysIntervalRef w' = sysIntervalRef w \<and> timers w' = timers w \<and>
     next_timer w' = next_timer w \<and> pending w' = pending w \<and>
     next_promise w' = next_promise w"

subsection \<open>Concrete inputs\<close>

text \<open>A reading of \<^verbatim>\<open>parseFloat\<close> that is exact on strings of decimal digits and \<open>NaN\<close>
  elsewhere; the concrete inputs below use digit strings and the empty string only.\<close>

definition parseFloat_digits :: "jsstring \<Rightarrow> number" where
  "parseFloat_digits s =
     (if s \<noteq> [] \<and> list_all (\<lambda>c. 0x30 \<le> c \<and> c \<le> 0x39) s
      then Num (of_nat (foldl (\<lambda>v c. 10 * v + (c - 0x30)) 0 s)) else NaN)"

definition notes_app :: ProcessInfo where
  "notes_app =
     \<lparr>pid = 4242, name = js ''notes.exe'', title = js ''budget.txt - Notes'', icon = None\<rparr>"

definition player_app :: ProcessInfo where
  "player_app = \<lparr>pid = 77, name = js ''player.exe'', title = js ''Player'', icon = None\<rparr>"

text \<open>The page after the first poll returned two applications, the user selected the
  first and entered one minute in each slot.\<close>

definition ready :: world where
  "ready =
     run parseFloat_digits
       [AppsSettled 0 (Resolved [notes_app, player_app]), ClickApp notes_app,
        ChangeAppMinutes (js ''1''), ChangeSysHours (js ''0''), ChangeSysMinutes (js ''1'')]
       (mount en)"

text \<open>The same page with fields that give a total of zero: an empty field and a field
  that parses to nothing in the app slot, a zero and an empty field in the system slot.\<close>

definition zero_input :: world where
  "zero_input =
     run parseFloat_digits
       [ChangeAppHours [], ChangeAppMinutes (js ''abc''), ChangeSysHours (js ''0''),
        ChangeSysMinutes []] ready"

text \<open>The system slot of that page, armed for one minute and ticked sixty times.\<close>

definition sys_fired :: world where
  "sys_fired = run parseFloat_digits (replicate 60 (Tick 2)) (startSysTimer parseFloat_digits ready)"

text \<open>The app slot of that page armed for one minute, the selected application clicked
  again (which clears the selection), then sixty ticks.\<close>

definition deselected_fire :: world where
  "deselected_fire =
     run parseFloat_digits (ClickStartApp # ClickApp notes_app # replicate 60 (Tick 2)) ready"




text \<open>Both slots of that page started, then two minutes entered for the app slot.\<close>

definition both_armed :: world where
  "both_armed =
     run parseFloat_digits [ClickStartApp, ClickStartSys, ChangeAppMinutes (js ''2'')] ready"

text \<open>The start handler of the app slot called once more on that page.\<close>

definition rearmed :: world where
  "rearmed = startAppTimer parseFloat_digits both_armed"

text \<open>A poll started on the page with \<open>notes_app\<close> selected, and its answer: a list
  without that process.\<close>

definition polling :: world where
  "polling = step parseFloat_digits WindowChanged ready"

definition polled :: world where
  "polled = step parseFloat_digits (AppsSettled 1 (Resolved [player_app])) polling"






section \<open>Properties\<close>

lemmas page_defs =
  ready_def mount_def initial_def setInterval_def loadApps_def invoke_def setLoading_def
  loadApps_settled_def settle_def setApps_def setSelectedApp_def notes_app_def player_app_def

lemma ready_eq:
  "ready =
     \<lparr>render =
        \<lparr>apps = [notes_app, player_app], selectedApp = Some notes_app,
         appMinutes = js ''1'', appHours = js ''0'', sysMinutes = js ''1'',
         sysHours = js ''0'', sysAction = js ''shutdown'', shutdownAfter = False,
         appTimer = 0, sysTimer = 0, appStatus = [], sysStatus = [], loading = False,
         isDark = False, lang = en\<rparr>,
      appIntervalRef = None, sysIntervalRef = None, timers = [(1, PollTick)],
      next_timer = 2, pending = [], next_promise = 1,
      effects = [Invoke get_running_apps]\<rparr>"
  by (simp add: page_defs)

subsection \<open>Timer handles and countdowns\<close>

lemma fresh_lookup:
  "list_all (\<lambda>(i, cb). i < h) ts \<Longrightarrow> map_of ts (h::nat) = None"
  by (induction ts) auto

lemma fresh_filter:
  "list_all (\<lambda>(i, cb). i < h) ts \<Longrightarrow> filter (\<lambda>(j, cb). j \<noteq> (h::nat)) ts = ts"
  by (induction ts) auto

lemma lookup_filter: "map_of (filter (\<lambda>(j, cb). j \<noteq> h) ts) (h::nat) = None"
  by (induction ts) auto

lemma app_decrement:
  "map_of (timers w) h = Some (AppTick r) \<Longrightarrow> 1 < appTimer (render w) \<Longrightarrow>
   step pf (Tick h) w = setAppTimer (appTimer (render w) - 1) w"
  by (simp add: appTick_def)

lemma app_expire:
  "map_of (timers w) h = Some (AppTick r) \<Longrightarrow> appTimer (render w) \<le> 1 \<Longrightarrow>
   step pf (Tick h) w = setAppTimer 0 (executeAppShutdown r (clearInterval (appIntervalRef w) w))"
  by (simp add: appTick_def)

lemma run_append: "run pf (xs @ ys) w = run pf ys (run pf xs w)"
  by (induction xs arbitrary: w) auto

lemma run_replicate_Suc:
  "run pf (replicate (Suc n) e) w = step pf e (run pf (replicate n e) w)"
  by (induction n arbitrary: w) simp_all

lemma app_ticks_partial:
  "map_of (timers w) h = Some (AppTick r) \<Longrightarrow> int k < appTimer (render w) \<Longrightarrow>
   run pf (replicate k (Tick h)) w = setAppTimer (appTimer (render w) - int k) w"
proof (induction k arbitrary: w)
  case 0
  then show ?case by (simp add: setAppTimer_def)
next
  case (Suc k)
  let ?w = "setAppTimer (appTimer (render w) - 1) w"
  have big: "1 < appTimer (render w)"
    using Suc.prems(2) by simp
  have first: "step pf (Tick h) w = ?w"
    using Suc.prems(1) big by (rule app_decrement)
  have "map_of (timers ?w) h = Some (AppTick r)" and "int k < appTimer (render ?w)"
    using Suc.prems by (simp_all add: setAppTimer_def)
  then have "run pf (replicate k (Tick h)) ?w = setAppTimer (appTimer (render ?w) - int k) ?w"
    by (rule Suc.IH)
  then show ?case
    using first by (simp add: setAppTimer_def algebra_simps)
qed

lemma app_countdown:
  assumes "map_of (timers w) h = Some (AppTick r)" and "appTimer (render w) = int (Suc n)"
  shows "run pf (replicate (Suc n) (Tick h)) w =
         setAppTimer 0 (executeAppShutdown r (clearInterval (appIntervalRef w) w))"
proof -
  let ?w = "setAppTimer 1 w"
  have "run pf (replicate n (Tick h)) w = ?w"
    using app_ticks_partial [OF assms(1), of n pf] assms(2) by simp
  moreover have "step pf (Tick h) ?w =
      setAppTimer 0 (executeAppShutdown r (clearInterval (appIntervalRef ?w) ?w))"
    using assms(1) by (intro app_expire) (simp_all add: setAppTimer_def)
  moreover have "setAppTimer 0 (executeAppShutdown r (clearInterval (appIntervalRef ?w) ?w)) =
      setAppTimer 0 (executeAppShutdown r (clearInterval (appIntervalRef w) w))"
    by (simp add: setAppTimer_def executeAppShutdown_def clearInterval_def invoke_def
        split: option.splits)
  ultimately show ?thesis
    by (simp only: run_replicate_Suc)
qed

lemma seconds_positive: "0 < \<lfloor>x * 60\<rfloor> \<Longrightarrow> \<not> (x::rat) \<le> 0"
proof
  assume "0 < \<lfloor>x * 60\<rfloor>" and "x \<le> 0"
  then have "x * 60 \<le> 0" by (simp add: mult_le_0_iff)
  then have "\<lfloor>x * 60\<rfloor> \<le> 0" by (simp add: floor_le_zero)
  with \<open>0 < \<lfloor>x * 60\<rfloor>\<close> show False by simp
qed

lemma startAppTimer_accepted:
  assumes "selectedApp (render w) = Some a" and "0 < app_total pf (render w)"
  shows "startAppTimer pf w =
     w\<lparr>render := (render w)\<lparr>appTimer := app_seconds pf (render w), appStatus := []\<rparr>,
       appIntervalRef := Some (next_timer w),
       timers := timers w @ [(next_timer w, AppTick (render w))],
       next_timer := Suc (next_timer w)\<rparr>"
  using assms
  by (simp add: startAppTimer_def app_total_def app_seconds_def Let_def setInterval_def
      setAppStatus_def setAppTimer_def)

lemma app_fire:
  assumes "wf w" and "selectedApp (render w) = Some a"
    and "app_seconds pf (render w) = int (Suc n)"
  shows "run pf (replicate (Suc n) (Tick (next_timer w))) (startAppTimer pf w) =
     w\<lparr>render := (render w)\<lparr>appTimer := 0, appStatus := []\<rparr>,
       appIntervalRef := Some (next_timer w),
       next_timer := Suc (next_timer w),
       pending := pending w @ [(next_promise w, AwaitKill (render w))],
       next_promise := Suc (next_promise w),
       effects := effects w @ [Invoke (kill_process (pid a))]\<rparr>"
proof -
  let ?h = "next_timer w"
  let ?w1 = "startAppTimer pf w"
  have fresh: "list_all (\<lambda>(i, cb). i < ?h) (timers w)"
    using assms(1) by (simp add: wf_def)
  have "0 < \<lfloor>app_total pf (render w) * 60\<rfloor>"
    using assms(3) by (simp add: app_seconds_def)
  then have pos: "0 < app_total pf (render w)"
    using seconds_positive [of "app_total pf (render w)"] by simp
  note w1 = startAppTimer_accepted [OF assms(2) pos]
  have look: "map_of (timers ?w1) ?h = Some (AppTick (render w))"
    by (simp add: w1 map_add_def fresh_lookup [OF fresh])
  have tm: "appTimer (render ?w1) = int (Suc n)"
    using assms(3) by (simp add: w1)
  have "run pf (replicate (Suc n) (Tick ?h)) ?w1 =
      setAppTimer 0 (executeAppShutdown (render w) (clearInterval (appIntervalRef ?w1) ?w1))"
    using look tm by (rule app_countdown)
  also have "\<dots> = w\<lparr>render := (render w)\<lparr>appTimer := 0, appStatus := []\<rparr>,
       appIntervalRef := Some (next_timer w),
       next_timer := Suc (next_timer w),
       pending := pending w @ [(next_promise w, AwaitKill (render w))],
       next_promise := Suc (next_promise w),
       effects := effects w @ [Invoke (kill_process (pid a))]\<rparr>"
    using assms(2)
    by (simp add: w1 setAppTimer_def executeAppShutdown_def clearInterval_def invoke_def
        fresh_filter [OF fresh])
  finally show ?thesis .
qed

lemma sys_decrement:
  "map_of (timers w) h = Some (SysTick r) \<Longrightarrow> 1 < sysTimer (render w) \<Longrightarrow>
   step pf (Tick h) w = setSysTimer (sysTimer (render w) - 1) w"
  by (simp add: sysTick_def)

lemma sys_expire:
  "map_of (timers w) h = Some (SysTick r) \<Longrightarrow> sysTimer (render w) \<le> 1 \<Longrightarrow>
   step pf (Tick h) w = setSysTimer 0 (executeSysAction r (clearInterval (sysIntervalRef w) w))"
  by (simp add: sysTick_def)

lemma sys_ticks_partial:
  "map_of (timers w) h = Some (SysTick r) \<Longrightarrow> int k < sysTimer (render w) \<Longrightarrow>
   run pf (replicate k (Tick h)) w = setSysTimer (sysTimer (render w) - int k) w"
proof (induction k arbitrary: w)
  case 0
  then show ?case by (simp add: setSysTimer_def)
next
  case (Suc k)
  let ?w = "setSysTimer (sysTimer (render w) - 1) w"
  have big: "1 < sysTimer (render w)"
    using Suc.prems(2) by simp
  have first: "step pf (Tick h) w = ?w"
    using Suc.prems(1) big by (rule sys_decrement)
  have "map_of (timers ?w) h = Some (SysTick r)" and "int k < sysTimer (render ?w)"
    using Suc.prems by (simp_all add: setSysTimer_def)
  then have "run pf (replicate k (Tick h)) ?w = setSysTimer (sysTimer (render ?w) - int k) ?w"
    by (rule Suc.IH)
  then show ?case
    using first by (simp add: setSysTimer_def algebra_simps)
qed

lemma sys_countdown:
  assumes "map_of (timers w) h = Some (SysTick r)" and "sysTimer (render w) = int (Suc n)"
  shows "run pf (replicate (Suc n) (Tick h)) w =
         setSysTimer 0 (executeSysAction r (clearInterval (sysIntervalRef w) w))"
proof -
  let ?w = "setSysTimer 1 w"
  have "run pf (replicate n (Tick h)) w = ?w"
    using sys_ticks_partial [OF assms(1), of n pf] assms(2) by simp
  moreover have "step pf (Tick h) ?w =
      setSysTimer 0 (executeSysAction r (clearInterval (sysIntervalRef ?w) ?w))"
    using assms(1) by (intro sys_expire) (simp_all add: setSysTimer_def)
  moreover have "setSysTimer 0 (executeSysAction r (clearInterval (sysIntervalRef ?w) ?w)) =
      setSysTimer 0 (executeSysAction r (clearInterval (sysIntervalRef w) w))"
    by (simp add: setSysTimer_def executeSysAction_def clearInterval_def invoke_def
        split: option.splits)
  ultimately show ?thesis
    by (simp only: run_replicate_Suc)
qed

lemma startSysTimer_accepted:
  assumes "0 < sys_total pf (render w)"
  shows "startSysTimer pf w =
     w\<lparr>render := (render w)\<lparr>sysTimer := sys_seconds pf (render w), sysStatus := []\<rparr>,
       sysIntervalRef := Some (next_timer w),
       timers := timers w @ [(next_timer w, SysTick (render w))],
       next_timer := Suc (next_timer w)\<rparr>"
  using assms
  by (simp add: startSysTimer_def sys_total_def sys_seconds_def Let_def setInterval_def
      setSysStatus_def setSysTimer_def)

lemma executeSysAction_eq:
  "executeSysAction r w =
     (case power_command (sysAction r) of None \<Rightarrow> w | Some c \<Rightarrow> invoke c AwaitSysAction w)"
  by (simp add: executeSysAction_def power_command_def js_def)

lemma sys_fire:
  assumes "wf w" and "sys_seconds pf (render w) = int (Suc n)"
  shows "run pf (replicate (Suc n) (Tick (next_timer w))) (startSysTimer pf w) =
     (case power_command (sysAction (render w)) of
        None \<Rightarrow> id
      | Some c \<Rightarrow> invoke c AwaitSysAction)
     (w\<lparr>render := (render w)\<lparr>sysTimer := 0, sysStatus := []\<rparr>,
       sysIntervalRef := Some (next_timer w),
       next_timer := Suc (next_timer w)\<rparr>)"
proof -
  let ?h = "next_timer w"
  let ?w1 = "startSysTimer pf w"
  have fresh: "list_all (\<lambda>(i, cb). i < ?h) (timers w)"
    using assms(1) by (simp add: wf_def)
  have "0 < \<lfloor>sys_total pf (render w) * 60\<rfloor>"
    using assms(2) by (simp add: sys_seconds_def)
  then have pos: "0 < sys_total pf (render w)"
    using seconds_positive [of "sys_total pf (render w)"] by simp
  note w1 = startSysTimer_accepted [OF pos]
  have look: "map_of (timers ?w1) ?h = Some (SysTick (render w))"
    by (simp add: w1 map_add_def fresh_lookup [OF fresh])
  have tm: "sysTimer (render ?w1) = int (Suc n)"
    using assms(2) by (simp add: w1)
  have "run pf (replicate (Suc n) (Tick ?h)) ?w1 =
      setSysTimer 0 (executeSysAction (render w) (clearInterval (sysIntervalRef ?w1) ?w1))"
    using look tm by (rule sys_countdown)
  also have "\<dots> = (case power_command (sysAction (render w)) of
        None \<Rightarrow> id
      | Some c \<Rightarrow> invoke c AwaitSysAction)
     (w\<lparr>render := (render w)\<lparr>sysTimer := 0, sysStatus := []\<rparr>,
       sysIntervalRef := Some (next_timer w),
       next_timer := Suc (next_timer w)\<rparr>)"
    by (simp add: w1 setSysTimer_def executeSysAction_eq clearInterval_def invoke_def
        fresh_filter [OF fresh] split: option.splits)
  finally show ?thesis .
qed

subsection \<open>Rejected input\<close>

lemma alert_same_state: "same_state w (alert msg w)"
  by (simp add: same_state_def alert_def)

text \<open>
  Claim C4. When the parsed total of the two fields of a slot, hours * 60 + minutes with
  an unparsable field read as zero, is zero or negative, the start handler of that slot
  returns after an alert: hooks (remaining seconds and status among them), refs,
  intervals and promises are exactly as before, so no countdown and no tick source
  exists that did not exist before. The same holds for the click on the start button.
\<close>

theorem arm_rejects_nonpositive_total:
  "(app_total pf (render w) \<le> 0 \<longrightarrow>
      same_state w (startAppTimer pf w) \<and> same_state w (step pf ClickStartApp w) \<and>
      effects (startAppTimer pf w) =
        effects w @ [Alert (t (render w)
          (if selectedApp (render w) = None then pleaseSelect else invalidTime))]) \<and>
   (sys_total pf (render w) \<le> 0 \<longrightarrow>
      same_state w (startSysTimer pf w) \<and> same_state w (step pf ClickStartSys w) \<and>
      effects (startSysTimer pf w) = effects w @ [Alert (t (render w) invalidTime)])"
  by (auto simp: startAppTimer_def startSysTimer_def alert_same_state Let_def
      app_total_def sys_total_def same_state_def alert_def split: option.splits)

theorem arm_rejects_nonpositive_total_witness:
  "same_state zero_input (startAppTimer parseFloat_digits zero_input) \<and>
   same_state zero_input (step parseFloat_digits ClickStartApp zero_input) \<and>
   effects (startAppTimer parseFloat_digits zero_input) =
     effects zero_input @ [Alert (js ''Please enter a valid time!'')] \<and>
   same_state zero_input (startSysTimer parseFloat_digits zero_input) \<and>
   same_state zero_input (step parseFloat_digits ClickStartSys zero_input) \<and>
   effects (startSysTimer parseFloat_digits zero_input) =
     effects zero_input @ [Alert (js ''Please enter a valid time!'')]"
  using arm_rejects_nonpositive_total [of parseFloat_digits zero_input]
  by (simp add: zero_input_def ready_eq parseFloat_digits_def or_zero_def js_def t_def
      app_total_def sys_total_def)

subsection \<open>Firing\<close>

lemma dead_ticks: "map_of (timers w) h = None \<Longrightarrow> run pf (replicate m (Tick h)) w = w"
  by (induction m) simp_all

lemma wf_ready: "wf ready"
  by (simp add: ready_eq wf_def)

text \<open>
  Claim C1, as the code has it. A slot armed with N seconds, N at least 1, is fired by
  the N-th tick of its interval: the remaining seconds are 0, the interval is cleared
  (the table of intervals is the one from before arming, so further ticks of the handle
  change nothing), and the action of the slot is invoked exactly once, \<^verbatim>\<open>kill_process\<close>
  with the pid of the selection for the app slot and the power command chosen for the
  system slot. The app slot shows the text for closed once \<^verbatim>\<open>kill_process\<close> has
  resolved; the system slot records no status at all: its status is empty after the
  fire and after the command has settled.
\<close>

theorem fire_once_after_n_ticks:
  assumes "wf w"
  shows
   "(selectedApp (render w) = Some a \<and> app_seconds pf (render w) = int (Suc n) \<longrightarrow>
       (let h = next_timer w;
            w' = run pf (replicate (Suc n) (Tick h)) (startAppTimer pf w)
        in appTimer (render w') = 0 \<and> timers w' = timers w \<and>
           effects w' = effects w @ [Invoke (kill_process (pid a))] \<and>
           run pf (replicate m (Tick h)) w' = w' \<and>
           appStatus (render w') = [] \<and>
           appStatus (render (step pf (CommandSettled (next_promise w) (Resolved ())) w')) =
             t (render w) closed)) \<and>
    (sys_seconds pf (render w) = int (Suc n) \<and> power_command (sysAction (render w)) = Some c \<longrightarrow>
       (let h = next_timer w;
            w' = run pf (replicate (Suc n) (Tick h)) (startSysTimer pf w)
        in sysTimer (render w') = 0 \<and> timers w' = timers w \<and>
           effects w' = effects w @ [Invoke c] \<and>
           run pf (replicate m (Tick h)) w' = w' \<and>
           sysStatus (render w') = [] \<and>
           sysStatus (render (step pf (CommandSettled (next_promise w) res) w')) = []))"
proof (intro conjI impI)
  assume app: "selectedApp (render w) = Some a \<and> app_seconds pf (render w) = int (Suc n)"
  define w' where "w' = run pf (replicate (Suc n) (Tick (next_timer w))) (startAppTimer pf w)"
  have fresh: "list_all (\<lambda>(i, cb). i < next_timer w) (timers w)"
    and freshp: "list_all (\<lambda>(i, k). i < next_promise w) (pending w)"
    using assms by (simp_all add: wf_def)
  have eq: "w' =
     w\<lparr>render := (render w)\<lparr>appTimer := 0, appStatus := []\<rparr>,
       appIntervalRef := Some (next_timer w),
       next_timer := Suc (next_timer w),
       pending := pending w @ [(next_promise w, AwaitKill (render w))],
       next_promise := Suc (next_promise w),
       effects := effects w @ [Invoke (kill_process (pid a))]\<rparr>"
    unfolding w'_def using assms app by (intro app_fire) simp_all
  have dead: "map_of (timers w') (next_timer w) = None"
    by (simp add: eq fresh_lookup [OF fresh])
  have wait: "map_of (pending w') (next_promise w) = Some (AwaitKill (render w))"
    by (simp add: eq map_add_def fresh_lookup [OF freshp])
  have settled: "appStatus (render (step pf (CommandSettled (next_promise w) (Resolved ())) w')) =
      t (render w) closed"
    using wait
    by (simp add: settle_def setAppStatus_def invoke_def executeAppShutdown_tail_def
        setSelectedApp_def loadApps_def setLoading_def Let_def)
  have "appTimer (render w') = 0 \<and> timers w' = timers w \<and>
        effects w' = effects w @ [Invoke (kill_process (pid a))] \<and> appStatus (render w') = []"
    by (simp add: eq)
  then show "let h = next_timer w;
            w' = run pf (replicate (Suc n) (Tick h)) (startAppTimer pf w)
        in appTimer (render w') = 0 \<and> timers w' = timers w \<and>
           effects w' = effects w @ [Invoke (kill_process (pid a))] \<and>
           run pf (replicate m (Tick h)) w' = w' \<and>
           appStatus (render w') = [] \<and>
           appStatus (render (step pf (CommandSettled (next_promise w) (Resolved ())) w')) =
             t (render w) closed"
    unfolding Let_def w'_def [symmetric] using dead_ticks [OF dead, of pf m] settled by simp
next
  assume sys: "sys_seconds pf (render w) = int (Suc n) \<and>
    power_command (sysAction (render w)) = Some c"
  define w' where "w' = run pf (replicate (Suc n) (Tick (next_timer w))) (startSysTimer pf w)"
  have fresh: "list_all (\<lambda>(i, cb). i < next_timer w) (timers w)"
    and freshp: "list_all (\<lambda>(i, k). i < next_promise w) (pending w)"
    using assms by (simp_all add: wf_def)
  have eq: "w' = invoke c AwaitSysAction
     (w\<lparr>render := (render w)\<lparr>sysTimer := 0, sysStatus := []\<rparr>,
       sysIntervalRef := Some (next_timer w),
       next_timer := Suc (next_timer w)\<rparr>)"
    unfolding w'_def using sys_fire [OF assms conjunct1 [OF sys]] sys by simp
  have dead: "map_of (timers w') (next_timer w) = None"
    by (simp add: eq invoke_def fresh_lookup [OF fresh])
  have wait: "map_of (pending w') (next_promise w) = Some AwaitSysAction"
    by (simp add: eq invoke_def map_add_def fresh_lookup [OF freshp])
  have settled: "sysStatus (render (step pf (CommandSettled (next_promise w) res) w')) = []"
    using wait by (simp add: settle_def) (simp add: eq invoke_def)
  have "sysTimer (render w') = 0 \<and> timers w' = timers w \<and>
        effects w' = effects w @ [Invoke c] \<and> sysStatus (render w') = []"
    by (simp add: eq invoke_def)
  then show "let h = next_timer w;
            w' = run pf (replicate (Suc n) (Tick h)) (startSysTimer pf w)
        in sysTimer (render w') = 0 \<and> timers w' = timers w \<and>
           effects w' = effects w @ [Invoke c] \<and>
           run pf (replicate m (Tick h)) w' = w' \<and>
           sysStatus (render w') = [] \<and>
           sysStatus (render (step pf (CommandSettled (next_promise w) res) w')) = []"
    unfolding Let_def w'_def [symmetric] using dead_ticks [OF dead, of pf m] settled by simp
qed

lemma ready_seconds:
  "app_seconds parseFloat_digits (render ready) = 60"
  "sys_seconds parseFloat_digits (render ready) = 60"
  by (simp_all add: ready_eq app_seconds_def sys_seconds_def app_total_def sys_total_def
      parseFloat_digits_def or_zero_def js_def)

lemma sys_fired_eq:
  "sys_fired =
     ready\<lparr>render := (render ready)\<lparr>sysTimer := 0, sysStatus := []\<rparr>,
       sysIntervalRef := Some 2, next_timer := 3,
       pending := [(1, AwaitSysAction)], next_promise := 2,
       effects := [Invoke get_running_apps, Invoke system_shutdown]\<rparr>"
proof -
  have "power_command (sysAction (render ready)) = Some system_shutdown"
    by (simp add: ready_eq power_command_def)
  then show ?thesis
    using sys_fire [OF wf_ready, of parseFloat_digits 59]
    by (simp add: sys_fired_def ready_seconds invoke_def) (simp add: ready_eq)
qed

text \<open>The system slot after its fire: the command went out, the status is empty, and it
  stays empty when the command has resolved.\<close>

theorem system_fire_leaves_status_empty:
  "sysTimer (render sys_fired) = 0 \<and>
   effects sys_fired = [Invoke get_running_apps, Invoke system_shutdown] \<and>
   sysStatus (render sys_fired) = [] \<and>
   sysStatus (render (step parseFloat_digits (CommandSettled 1 (Resolved ())) sys_fired)) = [] \<and>
   sysStatus (render sys_fired) \<noteq> t (render sys_fired) closed"
  by (simp add: sys_fired_eq settle_def) (simp add: ready_eq t_def)

theorem fire_once_after_n_ticks_witness:
  "(let h = next_timer ready;
        w' = run parseFloat_digits (replicate (Suc 59) (Tick h)) (startAppTimer parseFloat_digits ready)
    in appTimer (render w') = 0 \<and> timers w' = timers ready \<and>
       effects w' = effects ready @ [Invoke (kill_process (pid notes_app))] \<and>
       run parseFloat_digits (replicate 3 (Tick h)) w' = w' \<and>
       appStatus (render w') = [] \<and>
       appStatus (render (step parseFloat_digits (CommandSettled (next_promise ready) (Resolved ())) w')) =
         t (render ready) closed) \<and>
   (let h = next_timer ready;
        w' = run parseFloat_digits (replicate (Suc 59) (Tick h)) (startSysTimer parseFloat_digits ready)
    in sysTimer (render w') = 0 \<and> timers w' = timers ready \<and>
       effects w' = effects ready @ [Invoke system_shutdown] \<and>
       run parseFloat_digits (replicate 3 (Tick h)) w' = w' \<and>
       sysStatus (render w') = [] \<and>
       sysStatus (render (step parseFloat_digits (CommandSettled (next_promise ready) (Resolved ())) w')) = [])"
proof -
  have "selectedApp (render ready) = Some notes_app"
    and "power_command (sysAction (render ready)) = Some system_shutdown"
    by (simp_all add: ready_eq power_command_def)
  moreover have "app_seconds parseFloat_digits (render ready) = int (Suc 59)"
    and "sys_seconds parseFloat_digits (render ready) = int (Suc 59)"
    by (simp_all add: ready_seconds)
  ultimately show ?thesis
    using fire_once_after_n_ticks [OF wf_ready, of notes_app parseFloat_digits 59 3
        system_shutdown "Resolved ()"]
    by blast
qed

subsection \<open>Selection changes during a countdown\<close>

lemma count_list_replicate_same: "count_list (replicate n x) x = n"
  by (induction n) simp_all

lemma ClickApp_keeps:
  "is_ClickApp e \<Longrightarrow>
   timers (step pf e w) = timers w \<and> appIntervalRef (step pf e w) = appIntervalRef w \<and>
   appTimer (render (step pf e w)) = appTimer (render w) \<and> effects (step pf e w) = effects w"
  by (cases e) (simp_all add: setSelectedApp_def)

lemma selecting_after_fire:
  "map_of (timers w) h = None \<Longrightarrow> list_all (\<lambda>e. e = Tick h \<or> is_ClickApp e) es \<Longrightarrow>
   effects (run pf es w) = effects w"
proof (induction es arbitrary: w)
  case Nil
  then show ?case by simp
next
  case (Cons e es)
  from Cons.prems(2) have "e = Tick h \<or> is_ClickApp e" by simp
  then show ?case
  proof
    assume "e = Tick h"
    then have "step pf e w = w" using Cons.prems(1) by simp
    then show ?thesis using Cons by simp
  next
    assume c: "is_ClickApp e"
    then have "map_of (timers (step pf e w)) h = None"
      using Cons.prems(1) by (simp add: ClickApp_keeps)
    then have "effects (run pf es (step pf e w)) = effects (step pf e w)"
      using Cons.prems(2) by (intro Cons.IH) simp_all
    then show ?thesis using c by (simp add: ClickApp_keeps)
  qed
qed

lemma selecting_countdown:
  assumes "map_of (timers w) h = Some (AppTick r)" and "appIntervalRef w = Some h"
    and "appTimer (render w) = int (Suc n)" and "selectedApp r = Some a"
    and "list_all (\<lambda>e. e = Tick h \<or> is_ClickApp e) es"
    and "Suc n \<le> count_list es (Tick h)"
  shows "effects (run pf es w) = effects w @ [Invoke (kill_process (pid a))]"
  using assms
proof (induction es arbitrary: w n)
  case Nil
  then show ?case by simp
next
  case (Cons e es)
  from Cons.prems(5) have rest: "list_all (\<lambda>e. e = Tick h \<or> is_ClickApp e) es"
    and "e = Tick h \<or> is_ClickApp e" by simp_all
  from this(2) show ?case
  proof
    assume c: "is_ClickApp e"
    then have "e \<noteq> Tick h" by auto
    then have cnt: "Suc n \<le> count_list es (Tick h)" using Cons.prems(6) by simp
    have "effects (run pf es (step pf e w)) =
        effects (step pf e w) @ [Invoke (kill_process (pid a))]"
      using Cons.prems(1-4) rest cnt c by (intro Cons.IH [of _ n]) (simp_all add: ClickApp_keeps)
    then show ?thesis using c by (simp add: ClickApp_keeps)
  next
    assume e: "e = Tick h"
    then have cnt: "n \<le> count_list es (Tick h)" using Cons.prems(6) by simp
    show ?thesis
    proof (cases n)
      case 0
      have st: "step pf e w = setAppTimer 0 (executeAppShutdown r (clearInterval (Some h) w))"
        using app_expire [OF Cons.prems(1), of pf] Cons.prems(2,3) 0 e by simp
      have "map_of (timers (step pf e w)) h = None"
        using Cons.prems(4)
        by (simp add: st setAppTimer_def executeAppShutdown_def invoke_def clearInterval_def
            lookup_filter)
      then have "effects (run pf es (step pf e w)) = effects (step pf e w)"
        using rest by (rule selecting_after_fire)
      then show ?thesis
        using Cons.prems(4)
        by (simp add: st setAppTimer_def executeAppShutdown_def invoke_def clearInterval_def)
    next
      case (Suc k)
      have st: "step pf e w = setAppTimer (int (Suc k)) w"
        using app_decrement [OF Cons.prems(1), of pf] Cons.prems(3) Suc e by simp
      have "effects (run pf es (step pf e w)) =
          effects (step pf e w) @ [Invoke (kill_process (pid a))]"
        using Cons.prems(1,2,4) rest cnt Suc
        by (intro Cons.IH [of _ k]) (simp_all add: st setAppTimer_def)
      then show ?thesis by (simp add: st setAppTimer_def)
    qed
  qed
qed

text \<open>
  Claim C5. The interval callback of a countdown closes over the render that started it,
  so \<^verbatim>\<open>kill_process\<close> receives the pid selected at that moment: whatever clicks on the
  application list are delivered between the ticks (selecting another process,
  clearing the selection, selecting again), once the N ticks are through the only
  effect since arming is \<^verbatim>\<open>kill_process\<close> with the pid of the selection at arm time.
\<close>

theorem kill_targets_pid_selected_at_arm:
  assumes "wf w" and "selectedApp (render w) = Some a"
    and "app_seconds pf (render w) = int (Suc n)"
    and "list_all (\<lambda>e. e = Tick (next_timer w) \<or> is_ClickApp e) es"
    and "Suc n \<le> count_list es (Tick (next_timer w))"
  shows "effects (run pf es (startAppTimer pf w)) =
         effects w @ [Invoke (kill_process (pid a))]"
proof -
  have fresh: "list_all (\<lambda>(i, cb). i < next_timer w) (timers w)"
    using assms(1) by (simp add: wf_def)
  have "0 < \<lfloor>app_total pf (render w) * 60\<rfloor>"
    using assms(3) by (simp add: app_seconds_def)
  then have pos: "0 < app_total pf (render w)"
    using seconds_positive [of "app_total pf (render w)"] by simp
  note w1 = startAppTimer_accepted [OF assms(2) pos]
  have "effects (run pf es (startAppTimer pf w)) =
      effects (startAppTimer pf w) @ [Invoke (kill_process (pid a))]"
    using assms(2-5)
    by (intro selecting_countdown [where r = "render w" and h = "next_timer w" and n = n])
      (simp_all add: w1 map_add_def fresh_lookup [OF fresh])
  then show ?thesis by (simp add: w1)
qed

theorem kill_targets_pid_selected_at_arm_witness:
  "effects (run parseFloat_digits
      ([Tick 2, ClickApp notes_app, Tick 2, ClickApp player_app] @ replicate 58 (Tick 2))
      (startAppTimer parseFloat_digits ready)) =
   effects ready @ [Invoke (kill_process 4242)] \<and>
   selectedApp (render (run parseFloat_digits [Tick 2, ClickApp notes_app, Tick 2, ClickApp player_app]
      (startAppTimer parseFloat_digits ready))) = Some player_app"
proof -
  have sel: "selectedApp (render ready) = Some notes_app" "next_timer ready = 2"
    "pid notes_app = 4242"
    by (simp_all add: ready_eq notes_app_def)
  have sec: "app_seconds parseFloat_digits (render ready) = int (Suc 59)"
    by (simp add: ready_seconds)
  have "effects (run parseFloat_digits
      ([Tick 2, ClickApp notes_app, Tick 2, ClickApp player_app] @ replicate 58 (Tick 2))
      (startAppTimer parseFloat_digits ready)) =
   effects ready @ [Invoke (kill_process (pid notes_app))]"
    by (rule kill_targets_pid_selected_at_arm [OF wf_ready sel(1) sec])
      (simp_all add: sel count_list_replicate_same list_all_iff)
  moreover have "selectedApp (render (run parseFloat_digits
      [Tick 2, ClickApp notes_app, Tick 2, ClickApp player_app]
      (startAppTimer parseFloat_digits ready))) = Some player_app"
    by (simp add: ready_eq startAppTimer_def parseFloat_digits_def or_zero_def js_def
        setInterval_def setAppStatus_def setAppTimer_def appTick_def setSelectedApp_def
        notes_app_def player_app_def)
  ultimately show ?thesis by (simp add: sel)
qed

subsection \<open>The selection at the moment of the fire\<close>

text \<open>The selection was cleared during the countdown, and the fire still terminated the
  process that was selected when the timer was started.\<close>

theorem deselected_fire_still_kills:
  "selectedApp (render (run parseFloat_digits [ClickStartApp, ClickApp notes_app] ready)) = None \<and>
   effects deselected_fire = [Invoke get_running_apps, Invoke (kill_process 4242)]"
proof -
  let ?w = "run parseFloat_digits [ClickStartApp, ClickApp notes_app] ready"
  have w: "?w =
     ready\<lparr>render := (render ready)\<lparr>selectedApp := None, appTimer := 60, appStatus := []\<rparr>,
       appIntervalRef := Some 2, timers := [(1, PollTick), (2, AppTick (render ready))],
       next_timer := 3\<rparr>"
    by (simp add: ready_eq startAppTimer_def parseFloat_digits_def or_zero_def js_def
        setInterval_def setAppStatus_def setAppTimer_def setSelectedApp_def notes_app_def)
  have "run parseFloat_digits (replicate (Suc 59) (Tick 2)) ?w =
      setAppTimer 0 (executeAppShutdown (render ready) (clearInterval (appIntervalRef ?w) ?w))"
    by (rule app_countdown) (simp_all only: w, simp_all)
  then have "run parseFloat_digits (replicate 60 (Tick 2)) ?w =
      setAppTimer 0 (executeAppShutdown (render ready) (clearInterval (appIntervalRef ?w) ?w))"
    by (simp del: replicate.simps run.simps)
  then have "effects (run parseFloat_digits (replicate 60 (Tick 2)) ?w) =
      [Invoke get_running_apps, Invoke (kill_process 4242)]"
    by (simp only: w)
      (simp add: setAppTimer_def executeAppShutdown_def clearInterval_def invoke_def
        ready_eq notes_app_def)
  moreover have "deselected_fire = run parseFloat_digits (replicate 60 (Tick 2)) ?w"
    by (simp add: deselected_fire_def)
  moreover have "selectedApp (render ?w) = None"
    by (simp only: w) simp
  ultimately show ?thesis by simp
qed

text \<open>
  Claim C10, as the code has it. \<^verbatim>\<open>executeAppShutdown\<close> does nothing at all when the
  selection of the render it closes over is none. The callback of a countdown closes
  over the render that armed it, in which a process is selected, so clearing the
  selection during the countdown does not turn the fire into a no-op: with no selection
  left at the moment of the fire, \<^verbatim>\<open>kill_process\<close> is still invoked with the pid selected
  at arm time, and the status shows the text for closed once the call has resolved.
\<close>

theorem fire_reads_selection_of_arming_render:
  "(selectedApp r = None \<longrightarrow> executeAppShutdown r w0 = w0) \<and>
   (wf w \<and> selectedApp (render w) = Some a \<and> a \<in> set (apps (render w)) \<and>
    app_seconds pf (render w) = int (Suc n) \<longrightarrow>
      (let w2 = step pf (ClickApp a) (startAppTimer pf w);
           w' = run pf (replicate (Suc n) (Tick (next_timer w))) w2
       in selectedApp (render w2) = None \<and>
          effects w' = effects w @ [Invoke (kill_process (pid a))] \<and>
          appStatus (render (step pf (CommandSettled (next_promise w) (Resolved ())) w')) =
            t (render w) closed))"
proof (intro conjI impI)
  show "executeAppShutdown r w0 = w0" if "selectedApp r = None"
    using that by (simp add: executeAppShutdown_def)
next
  assume hyp: "wf w \<and> selectedApp (render w) = Some a \<and> a \<in> set (apps (render w)) \<and>
    app_seconds pf (render w) = int (Suc n)"
  then have wf: "wf w" and sel: "selectedApp (render w) = Some a"
    and shown: "a \<in> set (apps (render w))" and sec: "app_seconds pf (render w) = int (Suc n)"
    by simp_all
  have fresh: "list_all (\<lambda>(i, cb). i < next_timer w) (timers w)"
    and freshp: "list_all (\<lambda>(i, k). i < next_promise w) (pending w)"
    using wf by (simp_all add: wf_def)
  have "0 < \<lfloor>app_total pf (render w) * 60\<rfloor>"
    using sec by (simp add: app_seconds_def)
  then have pos: "0 < app_total pf (render w)"
    using seconds_positive [of "app_total pf (render w)"] by simp
  note w1 = startAppTimer_accepted [OF sel pos]
  define w2 where "w2 = step pf (ClickApp a) (startAppTimer pf w)"
  have w2: "w2 = setSelectedApp None (startAppTimer pf w)"
    using sel shown by (simp add: w2_def w1)
  define w' where "w' = run pf (replicate (Suc n) (Tick (next_timer w))) w2"
  have "w' = setAppTimer 0 (executeAppShutdown (render w) (clearInterval (appIntervalRef w2) w2))"
    unfolding w'_def using sec
    by (intro app_countdown)
      (simp_all add: w2 w1 setSelectedApp_def map_add_def fresh_lookup [OF fresh])
  then have eq: "w' =
     w\<lparr>render := (render w)\<lparr>selectedApp := None, appTimer := 0, appStatus := []\<rparr>,
       appIntervalRef := Some (next_timer w),
       next_timer := Suc (next_timer w),
       pending := pending w @ [(next_promise w, AwaitKill (render w))],
       next_promise := Suc (next_promise w),
       effects := effects w @ [Invoke (kill_process (pid a))]\<rparr>"
    using sel
    by (simp add: w2 w1 setSelectedApp_def setAppTimer_def executeAppShutdown_def
        clearInterval_def invoke_def fresh_filter [OF fresh])
  have wait: "map_of (pending w') (next_promise w) = Some (AwaitKill (render w))"
    by (simp add: eq map_add_def fresh_lookup [OF freshp])
  have settled: "appStatus (render (step pf (CommandSettled (next_promise w) (Resolved ())) w')) =
      t (render w) closed"
    using wait
    by (simp add: settle_def setAppStatus_def invoke_def executeAppShutdown_tail_def
        setSelectedApp_def loadApps_def setLoading_def Let_def)
  have "selectedApp (render w2) = None"
    and "effects w' = effects w @ [Invoke (kill_process (pid a))]"
    by (simp_all add: w2 setSelectedApp_def eq)
  then show "let w2 = step pf (ClickApp a) (startAppTimer pf w);
           w' = run pf (replicate (Suc n) (Tick (next_timer w))) w2
       in selectedApp (render w2) = None \<and>
          effects w' = effects w @ [Invoke (kill_process (pid a))] \<and>
          appStatus (render (step pf (CommandSettled (next_promise w) (Resolved ())) w')) =
            t (render w) closed"
    unfolding Let_def w2_def [symmetric] w'_def [symmetric] using settled by simp
qed

theorem fire_reads_selection_of_arming_render_witness:
  "executeAppShutdown initial ready = ready \<and>
   (let w2 = step parseFloat_digits (ClickApp notes_app) (startAppTimer parseFloat_digits ready);
        w' = run parseFloat_digits (replicate (Suc 59) (Tick (next_timer ready))) w2
    in selectedApp (render w2) = None \<and>
       effects w' = effects ready @ [Invoke (kill_process (pid notes_app))] \<and>
       appStatus (render (step parseFloat_digits (CommandSettled (next_promise ready) (Resolved ())) w')) =
         t (render ready) closed)"
proof -
  have "selectedApp initial = None"
    by (simp add: initial_def)
  moreover have "wf ready \<and> selectedApp (render ready) = Some notes_app \<and>
      notes_app \<in> set (apps (render ready)) \<and>
      app_seconds parseFloat_digits (render ready) = int (Suc 59)"
    by (simp add: wf_ready ready_seconds) (simp add: ready_eq)
  ultimately show ?thesis
    using fire_reads_selection_of_arming_render
      [of initial ready ready notes_app parseFloat_digits 59]
    by blast
qed

subsection \<open>The chained shutdown\<close>





subsection \<open>An idle slot stays idle until it is started\<close>

lemmas setter_defs =
  setApps_def setSelectedApp_def setAppTimer_def setSysTimer_def setAppStatus_def
  setSysStatus_def setLoading_def





















subsection \<open>Cancelling\<close>








subsection \<open>Starting a slot that is already armed\<close>

lemmas start_defs =
  startAppTimer_def startSysTimer_def parseFloat_digits_def or_zero_def js_def
  setInterval_def setAppStatus_def setAppTimer_def setSysStatus_def setSysTimer_def

lemma both_armed_eq:
  "both_armed =
     ready\<lparr>render := (render ready)\<lparr>appMinutes := js ''2'', appTimer := 60, sysTimer := 60\<rparr>,
       appIntervalRef := Some 2, sysIntervalRef := Some 3,
       timers := [(1, PollTick), (2, AppTick (render ready)), (3, SysTick ((render ready)\<lparr>appTimer := 60\<rparr>))],
       next_timer := 4\<rparr>"
  by (simp add: both_armed_def ready_eq start_defs)

text \<open>After the second start three intervals are scheduled, two of them of the app
  slot, and one second later (one tick of each) the counter has dropped by two.\<close>

theorem rearm_stacks_intervals:
  "map fst (timers rearmed) = [1, 2, 3, 4] \<and>
   map (is_AppTick \<circ> snd) (timers rearmed) = [False, True, False, True] \<and>
   appTimer (render rearmed) = 120 \<and>
   appTimer (render (run parseFloat_digits [Tick 2, Tick 4] rearmed)) = 118"
  by (simp add: rearmed_def both_armed_eq) (simp add: ready_eq start_defs appTick_def)

text \<open>
  Claim C6, as the code has it. A start handler called on a slot, armed or not, with an
  accepted duration sets the remaining seconds to the new duration, clears the status
  and stores the handle of a new interval in the ref of the slot: the last start wins
  for the value and for the ref. It clears nothing: every interval scheduled before is
  still scheduled, so an earlier countdown of the slot keeps delivering ticks next to
  the new one. The page keeps the handler from being called on a running countdown:
  a click on a start button changes nothing while the remaining seconds of its slot are
  positive.
\<close>

theorem start_replaces_value_and_keeps_intervals:
  "(selectedApp (render w) = Some a \<and> 0 < app_total pf (render w) \<longrightarrow>
      (let w' = startAppTimer pf w
       in appTimer (render w') = app_seconds pf (render w) \<and> appStatus (render w') = [] \<and>
          appIntervalRef w' = Some (next_timer w) \<and>
          timers w' = timers w @ [(next_timer w, AppTick (render w))])) \<and>
   (0 < sys_total pf (render w) \<longrightarrow>
      (let w' = startSysTimer pf w
       in sysTimer (render w') = sys_seconds pf (render w) \<and> sysStatus (render w') = [] \<and>
          sysIntervalRef w' = Some (next_timer w) \<and>
          timers w' = timers w @ [(next_timer w, SysTick (render w))])) \<and>
   (0 < appTimer (render w) \<longrightarrow> step pf ClickStartApp w = w) \<and>
   (0 < sysTimer (render w) \<longrightarrow> step pf ClickStartSys w = w)"
proof (intro conjI impI)
  assume "selectedApp (render w) = Some a \<and> 0 < app_total pf (render w)"
  then have "selectedApp (render w) = Some a" and "0 < app_total pf (render w)"
    by simp_all
  from startAppTimer_accepted [OF this]
  show "let w' = startAppTimer pf w
       in appTimer (render w') = app_seconds pf (render w) \<and> appStatus (render w') = [] \<and>
          appIntervalRef w' = Some (next_timer w) \<and>
          timers w' = timers w @ [(next_timer w, AppTick (render w))]"
    by (simp add: Let_def)
next
  assume "0 < sys_total pf (render w)"
  from startSysTimer_accepted [OF this]
  show "let w' = startSysTimer pf w
       in sysTimer (render w') = sys_seconds pf (render w) \<and> sysStatus (render w') = [] \<and>
          sysIntervalRef w' = Some (next_timer w) \<and>
          timers w' = timers w @ [(next_timer w, SysTick (render w))]"
    by (simp add: Let_def)
qed simp_all

theorem start_replaces_value_and_keeps_intervals_witness:
  "(let w' = startAppTimer parseFloat_digits both_armed
    in appTimer (render w') = 120 \<and> appStatus (render w') = [] \<and>
       appIntervalRef w' = Some 4 \<and>
       timers w' = timers both_armed @ [(4, AppTick (render both_armed))]) \<and>
   (let w' = startSysTimer parseFloat_digits both_armed
    in sysTimer (render w') = 60 \<and> sysStatus (render w') = [] \<and>
       sysIntervalRef w' = Some 4 \<and>
       timers w' = timers both_armed @ [(4, SysTick (render both_armed))]) \<and>
   step parseFloat_digits ClickStartApp both_armed = both_armed \<and>
   step parseFloat_digits ClickStartSys both_armed = both_armed"
proof -
  have v: "selectedApp (render both_armed) = Some notes_app"
    "app_total parseFloat_digits (render both_armed) = 2"
    "sys_total parseFloat_digits (render both_armed) = 1"
    "appTimer (render both_armed) = 60" "sysTimer (render both_armed) = 60"
    "next_timer both_armed = 4"
    by (simp_all add: both_armed_eq app_total_def sys_total_def)
      (simp_all add: ready_eq parseFloat_digits_def or_zero_def js_def)
  show ?thesis
    using start_replaces_value_and_keeps_intervals [of both_armed notes_app parseFloat_digits]
    by (simp add: v app_seconds_def sys_seconds_def del: step.simps)
qed

subsection \<open>Polling and the selection\<close>

text \<open>The selected process is missing from the list the poll returned, and it is still
  selected.\<close>

theorem poll_keeps_stale_selection:
  "apps (render polled) = [player_app] \<and>
   selectedApp (render polled) = Some notes_app \<and>
   pid notes_app \<notin> set (map pid (apps (render polled)))"
  by (simp add: polled_def polling_def ready_eq loadApps_def invoke_def setLoading_def
      loadApps_settled_def settle_def setApps_def)
    (simp add: notes_app_def player_app_def)

text \<open>
  Claim C7, as the code has it. Starting a poll and completing it never touch the
  selection. A poll that returns a list replaces the cached list with it and clears the
  loading flag; a poll that fails keeps the cached list and logs the error. In both
  cases the selection is the one from before, whether or not its pid is in the list.
\<close>

theorem poll_replaces_list_and_keeps_selection:
  "selectedApp (render (loadApps w)) = selectedApp (render w) \<and>
   (map_of (pending w) i = Some AwaitGetApps \<longrightarrow>
      (let w' = step pf (AppsSettled i (Resolved result)) w
       in apps (render w') = result \<and> loading (render w') = False \<and>
          selectedApp (render w') = selectedApp (render w)) \<and>
      (let w' = step pf (AppsSettled i (Rejected e)) w
       in apps (render w') = apps (render w) \<and> loading (render w') = False \<and>
          selectedApp (render w') = selectedApp (render w) \<and>
          effects w' = effects w @ [ConsoleError e]))"
  by (simp add: loadApps_def invoke_def setLoading_def loadApps_settled_def settle_def
      setApps_def console_error_def Let_def)

theorem poll_replaces_list_and_keeps_selection_witness:
  "selectedApp (render polling) = Some notes_app \<and>
   selectedApp (render (loadApps polling)) = selectedApp (render polling) \<and>
   (let w' = step parseFloat_digits (AppsSettled 1 (Resolved [])) polling
    in apps (render w') = [] \<and> loading (render w') = False \<and>
       selectedApp (render w') = selectedApp (render polling)) \<and>
   (let w' = step parseFloat_digits (AppsSettled 1 (Rejected (js ''denied''))) polling
    in apps (render w') = apps (render polling) \<and> loading (render w') = False \<and>
       selectedApp (render w') = selectedApp (render polling) \<and>
       effects w' = effects polling @ [ConsoleError (js ''denied'')])"
proof -
  have "map_of (pending polling) 1 = Some AwaitGetApps"
    and "selectedApp (render polling) = Some notes_app"
    by (simp_all add: polling_def loadApps_def invoke_def setLoading_def ready_eq)
  then show ?thesis
    using poll_replaces_list_and_keeps_selection
      [of polling 1 parseFloat_digits "[]" "js ''denied''"]
    by blast
qed

subsection \<open>The display name\<close>

lemma replace_js_keeps_head:
  "pat \<noteq> [] \<Longrightarrow> hd pat \<noteq> c \<Longrightarrow> replace_js (c # cs) pat rep = c # replace_js cs pat rep"
  by (cases pat) simp_all

lemma split_head_keeps_head:
  "sep \<noteq> [] \<Longrightarrow> hd sep \<noteq> c \<Longrightarrow> split_head (c # cs) sep = c # split_head cs sep"
  by (cases sep) simp_all

lemma dropWhile_snoc_nonempty: "\<not> P c \<Longrightarrow> dropWhile P (ys @ [c]) \<noteq> []"
  by (induction ys) simp_all

lemma trim_js_nonempty: "\<not> isWhiteSpace c \<Longrightarrow> trim_js (c # cs) \<noteq> []"
  by (simp add: trim_js_def dropWhile_snoc_nonempty)

lemma separators_start_with_space: "sep \<in> set separators \<Longrightarrow> sep \<noteq> [] \<and> hd sep = 0x20"
  by (auto simp: separators_def js_def)

lemma browsers_nonempty: "(key, friendly) \<in> set browsers \<Longrightarrow> friendly \<noteq> []"
  by (auto simp: browsers_def js_def)

lemma find_Some_mem: "find P xs = Some x \<Longrightarrow> x \<in> set xs"
  by (induction xs) (auto split: if_splits)

lemma display_name_policy:
  "getAppDisplayName lc app =
     (if title app = [] then replace_js (replace_js (name app) (js ''.exe'') []) (js ''.EXE'') []
      else if includes_js (lc (name app)) (js ''chrome'') then js ''Google Chrome''
      else if includes_js (lc (name app)) (js ''msedge'') then js ''Microsoft Edge''
      else if includes_js (lc (name app)) (js ''firefox'') then js ''Firefox''
      else if includes_js (lc (name app)) (js ''opera'') then js ''Opera''
      else if includes_js (lc (name app)) (js ''brave'') then js ''Brave''
      else if includes_js (title app) (js '' - '')
        then trim_js (split_head (title app) (js '' - ''))
      else if includes_js (title app) [0x20, 0x2014, 0x20]
        then trim_js (split_head (title app) [0x20, 0x2014, 0x20])
      else if includes_js (title app) (js '' | '')
        then trim_js (split_head (title app) (js '' | ''))
      else if includes_js (title app) [0x20, 0xB7, 0x20]
        then trim_js (split_head (title app) [0x20, 0xB7, 0x20])
      else title app)"
  by (simp add: getAppDisplayName_def browsers_def separators_def)

lemma display_name_reference_vectors:
  "getAppDisplayName toLowerCase_ascii
     \<lparr>pid = p, name = js ''chrome.exe'', title = js ''My Page - Google Chrome'', icon = i\<rparr> =
     js ''Google Chrome''"
  "getAppDisplayName toLowerCase_ascii
     \<lparr>pid = p, name = js ''notes.exe'', title = js ''budget.txt - Notes'', icon = i\<rparr> =
     js ''budget.txt''"
  "getAppDisplayName toLowerCase_ascii
     \<lparr>pid = p, name = js ''service.exe'', title = [], icon = i\<rparr> = js ''service''"
  by (simp_all add: display_name_policy toLowerCase_ascii_def js_def trim_js_def isWhiteSpace_def)

text \<open>
  Claim C8. With an empty title the resolver removes the first \<^verbatim>\<open>.exe\<close> and then the first
  \<^verbatim>\<open>.EXE\<close> from the name. An extension in any other spelling is not removed: for the
  process name \<^verbatim>\<open>Setup.Exe\<close> and an empty title the display name is \<^verbatim>\<open>Setup.Exe\<close>, where
  stripping the extension without regard to case gives \<^verbatim>\<open>Setup\<close>.
\<close>

theorem display_name_keeps_mixed_case_extension:
  "getAppDisplayName toLowerCase \<lparr>pid = p, name = js ''Setup.Exe'', title = [], icon = i\<rparr> =
     js ''Setup.Exe''"
  by (simp add: getAppDisplayName_def js_def)

text \<open>The display name is empty when name and title are empty, when the title is empty
  and the name is only the extension, and for a title that starts with a separator.\<close>

theorem display_name_can_be_empty:
  "getAppDisplayName toLowerCase_ascii \<lparr>pid = 7, name = [], title = [], icon = None\<rparr> = [] \<and>
   getAppDisplayName toLowerCase_ascii
     \<lparr>pid = 7, name = js ''.exe'', title = [], icon = None\<rparr> = [] \<and>
   getAppDisplayName toLowerCase_ascii
     \<lparr>pid = 7, name = js ''notes.exe'', title = js '' - Notes'', icon = None\<rparr> = []"
  by (simp add: display_name_policy toLowerCase_ascii_def js_def trim_js_def isWhiteSpace_def)

text \<open>
  Claim C9, as the code has it. The resolver is a total function of the record and of
  nothing else (the model has no effect and no error branch, as the source has none).
  Its result can be empty; it is not empty when the name starts with a code unit other
  than the full stop and the title, if there is one, starts with a code unit that is
  not white space.
\<close>

theorem display_name_nonempty:
  assumes "name app = c # cs" and "c \<noteq> 0x2E"
    and "title app = [] \<or> \<not> isWhiteSpace (hd (title app))"
  shows "getAppDisplayName toLowerCase app \<noteq> []"
proof (cases "title app")
  case Nil
  have "replace_js (c # cs) (js ''.exe'') [] = c # replace_js cs (js ''.exe'') []"
    using assms(2) by (intro replace_js_keeps_head) (simp_all add: js_def)
  moreover have "replace_js (c # replace_js cs (js ''.exe'') []) (js ''.EXE'') [] =
      c # replace_js (replace_js cs (js ''.exe'') []) (js ''.EXE'') []"
    using assms(2) by (intro replace_js_keeps_head) (simp_all add: js_def)
  ultimately show ?thesis
    using Nil assms(1) by (simp add: getAppDisplayName_def)
next
  case (Cons d ds)
  with assms(3) have d: "\<not> isWhiteSpace d" by simp
  then have d20: "d \<noteq> 0x20" by (auto simp: isWhiteSpace_def)
  from Cons have ne: "title app \<noteq> []" by simp
  show ?thesis
  proof (cases "find (\<lambda>(key, friendly). includes_js (toLowerCase (name app)) key) browsers")
    case (Some kf)
    then have "kf \<in> set browsers" by (rule find_Some_mem)
    then have "snd kf \<noteq> []" using browsers_nonempty [of "fst kf" "snd kf"] by simp
    moreover have "getAppDisplayName toLowerCase app = snd kf"
      using ne Some by (simp add: getAppDisplayName_def split: prod.splits)
    ultimately show ?thesis by simp
  next
    case None
    show ?thesis
    proof (cases "find (\<lambda>sep. includes_js (title app) sep) separators")
      case (Some sep)
      then have "sep \<in> set separators" by (rule find_Some_mem)
      then have "sep \<noteq> []" and "hd sep \<noteq> d"
        using separators_start_with_space [of sep] d20 by simp_all
      then have "split_head (d # ds) sep = d # split_head ds sep"
        by (rule split_head_keeps_head)
      then have "trim_js (split_head (title app) sep) \<noteq> []"
        using d by (simp only: Cons trim_js_nonempty not_False_eq_True)
      moreover have "getAppDisplayName toLowerCase app = trim_js (split_head (title app) sep)"
        using ne None Some by (simp add: getAppDisplayName_def)
      ultimately show ?thesis by simp
    next
      case None' : None
      then have "getAppDisplayName toLowerCase app = title app"
        using ne None by (simp add: getAppDisplayName_def)
      then show ?thesis using ne by simp
    qed
  qed
qed

theorem display_name_nonempty_witness:
  "getAppDisplayName toLowerCase_ascii player_app \<noteq> [] \<and>
   getAppDisplayName toLowerCase_ascii notes_app \<noteq> [] \<and>
   getAppDisplayName toLowerCase_ascii (notes_app\<lparr>title := []\<rparr>) \<noteq> []"
proof -
  have "name player_app = 0x70 # js ''layer.exe''" "(0x70::nat) \<noteq> 0x2E"
    "title player_app = [] \<or> \<not> isWhiteSpace (hd (title player_app))"
    by (simp_all add: player_app_def js_def isWhiteSpace_def)
  note a = display_name_nonempty [OF this]
  have "name notes_app = 0x6E # js ''otes.exe''" "(0x6E::nat) \<noteq> 0x2E"
    "title notes_app = [] \<or> \<not> isWhiteSpace (hd (title notes_app))"
    by (simp_all add: notes_app_def js_def isWhiteSpace_def)
  note b = display_name_nonempty [OF this]
  have "name (notes_app\<lparr>title := []\<rparr>) = 0x6E # js ''otes.exe''" "(0x6E::nat) \<noteq> 0x2E"
    "title (notes_app\<lparr>title := []\<rparr>) = [] \<or> \<not> isWhiteSpace (hd (title (notes_app\<lparr>title := []\<rparr>)))"
    by (simp_all add: notes_app_def js_def)
  note c = display_name_nonempty [OF this]
  from a b c show ?thesis by blast
qed

subsection \<open>Every reachable world hands out fresh handles\<close>

lemma below_Suc:
  "list_all (\<lambda>(i, x). i < n) xs \<Longrightarrow> list_all (\<lambda>(i, x). i < Suc n) xs"
  by (induction xs) auto

lemma below_filter:
  "list_all (\<lambda>(i, x). i < n) xs \<Longrightarrow> list_all (\<lambda>(i, x). i < (n::nat)) (filter Q xs)"
  by (induction xs) auto

lemma wf_render: "wf (w\<lparr>render := r\<rparr>) = wf w"
  by (simp add: wf_def)

lemma wf_invoke: "wf w \<Longrightarrow> wf (invoke c k w)"
  by (simp add: wf_def invoke_def below_Suc)

lemma wf_loadApps: "wf w \<Longrightarrow> wf (loadApps w)"
  by (simp add: loadApps_def setLoading_def wf_invoke wf_render)

lemma wf_clearInterval: "wf w \<Longrightarrow> wf (clearInterval h w)"
  by (cases h) (simp_all add: clearInterval_def wf_def below_filter)

lemma wf_settle: "wf w \<Longrightarrow> wf (settle i w)"
  by (simp add: settle_def wf_def below_filter)

lemma wf_startAppTimer: "wf w \<Longrightarrow> wf (startAppTimer pf w)"
  by (auto simp: startAppTimer_def Let_def alert_def setInterval_def setter_defs wf_def
      below_Suc split: option.splits)

lemma wf_startSysTimer: "wf w \<Longrightarrow> wf (startSysTimer pf w)"
  by (auto simp: startSysTimer_def Let_def alert_def setInterval_def setter_defs wf_def
      below_Suc)

lemma wf_resume: "wf w \<Longrightarrow> wf (resume k res w)"
  by (cases "(k, res, w)" rule: resume.cases)
    (simp_all add: Let_def executeAppShutdown_tail_def setter_defs wf_render wf_invoke
      wf_loadApps)

lemma wf_fire: "wf w \<Longrightarrow> wf (fire cb w)"
proof (cases cb)
  case (AppTick r)
  assume "wf w"
  then have "wf (executeAppShutdown r (clearInterval (appIntervalRef w) w))"
    by (simp add: executeAppShutdown_def wf_invoke wf_clearInterval split: option.splits)
  with \<open>wf w\<close> show ?thesis
    using AppTick by (simp add: appTick_def Let_def setAppTimer_def wf_render)
next
  case (SysTick r)
  assume "wf w"
  then have "wf (executeSysAction r (clearInterval (sysIntervalRef w) w))"
    by (simp add: executeSysAction_def wf_invoke wf_clearInterval)
  with \<open>wf w\<close> show ?thesis
    using SysTick by (simp add: sysTick_def Let_def setSysTimer_def wf_render)
next
  case PollTick
  assume "wf w"
  then show ?thesis using PollTick by (simp add: wf_loadApps)
qed

lemma wf_step: "wf w \<Longrightarrow> wf (step pf e w)"
proof (cases e)
  case (Tick h)
  assume "wf w"
  then show ?thesis using Tick by (simp add: wf_fire split: option.splits)
next
  case (CommandSettled i res)
  assume "wf w"
  then show ?thesis
    using CommandSettled
    by (simp add: wf_resume wf_settle split: option.splits continuation.splits)
next
  case (AppsSettled i res)
  assume "wf w"
  then have "wf (loadApps_settled res (settle i w))"
    using wf_settle [of w i]
    by (simp add: loadApps_settled_def setter_defs console_error_def wf_def
        split: settled.splits)
  with \<open>wf w\<close> show ?thesis
    using AppsSettled by (simp split: option.splits continuation.splits)
qed (simp_all add: wf_render wf_startAppTimer wf_startSysTimer wf_loadApps setter_defs
      cancelAppTimer_def cancelSysTimer_def Let_def wf_clearInterval)

lemma wf_run: "wf w \<Longrightarrow> wf (run pf es w)"
  by (induction es arbitrary: w) (simp_all add: wf_step)

lemma wf_reachable: "wf (run pf es (mount l))"
  by (rule wf_run) (simp add: mount_def setInterval_def loadApps_def invoke_def setLoading_def wf_def)

end
